theory Spec2Isabelle
  imports Main "HOL-Library.Word" "HOL-Library.Sublist"
begin

unbundle bit_operations_syntax

section \<open>Strings and suffix matching\<close>

text \<open>
  Go strings are byte sequences; they are modelled as \<open>string\<close> (a list of \<open>char\<close>).
  \<^verbatim>\<open>strings.HasSuffix\<close> is the standard-library function
  \<^verbatim>\<open>
  func HasSuffix(s, suffix string) bool {
      return len(s) >= len(suffix) && s[len(s)-len(suffix):] == suffix
  }
  \<close>
\<close>

definition HasSuffix :: "string \<Rightarrow> string \<Rightarrow> bool" where
  "HasSuffix s suf = (length s \<ge> length suf \<and> drop (length s - length suf) s = suf)"

text \<open>
  \<^verbatim>\<open>
  func isAllowed(allowed []string, domain string) bool {
      for _, s := range allowed {
          if strings.HasSuffix(domain, s) { return true }
      }
      return false
  }
  \<close>
\<close>

fun isAllowed :: "string list \<Rightarrow> string \<Rightarrow> bool" where
  "isAllowed [] domain = False"
| "isAllowed (s # allowed) domain = (if HasSuffix domain s then True else isAllowed allowed domain)"

text \<open>
  The matching rule in the words of the specification: a name matches a pattern when it
  equals the pattern or ends with the pattern preceded by a label boundary (a dot).
  This definition follows the specification, not the source; it is compared with
  \<open>isAllowed\<close> below.
\<close>

definition spec_label_match :: "string \<Rightarrow> string \<Rightarrow> bool" where
  "spec_label_match pattern name = (name = pattern \<or> HasSuffix name (CHR ''.'' # pattern))"

definition spec_isAllowed :: "string list \<Rightarrow> string \<Rightarrow> bool" where
  "spec_isAllowed patterns name = list_ex (\<lambda>p. spec_label_match p name) patterns"

section \<open>The parts of Go's \<open>net\<close> package that the predicate calls\<close>

text \<open>
  \<^verbatim>\<open>net.IP\<close> and \<^verbatim>\<open>net.IPMask\<close> are byte slices and \<^verbatim>\<open>net.IPNet\<close> is a struct
  of the two. A nil slice and an empty slice are both the empty list: every test the
  library makes on them is a test of the length. The prefix list of the program holds
  pointers to \<^verbatim>\<open>net.IPNet\<close>; the model holds the structs pointed to.
\<close>

type_synonym byte = "8 word"
type_synonym IP = "byte list"
type_synonym IPMask = "byte list"

record IPNet =
  IP :: IP
  Mask :: IPMask

definition IPv4len :: nat where
  "IPv4len = 4"

definition IPv6len :: nat where
  "IPv6len = 16"

definition v4InV6Prefix :: "byte list" where
  "v4InV6Prefix = [0, 0, 0, 0, 0, 0, 0, 0, 0, 0, 0xff, 0xff]"

definition IPv4 :: "byte \<Rightarrow> byte \<Rightarrow> byte \<Rightarrow> byte \<Rightarrow> IP" where
  "IPv4 a b c d = v4InV6Prefix @ [a, b, c, d]"

definition isZeros :: "IP \<Rightarrow> bool" where
  "isZeros p = list_all (\<lambda>b. b = 0) p"

text \<open>
  \<^verbatim>\<open>
  func (ip IP) To4() IP {
      if len(ip) == IPv4len { return ip }
      if len(ip) == IPv6len && isZeros(ip[0:10]) && ip[10] == 0xff && ip[11] == 0xff {
          return ip[12:16]
      }
      return nil
  }
  \<close>
\<close>

definition To4 :: "IP \<Rightarrow> IP" where
  "To4 ip =
     (if length ip = IPv4len then ip
      else if length ip = IPv6len \<and> isZeros (take 10 ip) \<and> ip ! 10 = 0xff \<and> ip ! 11 = 0xff
           then take 4 (drop 12 ip)
      else [])"

text \<open>
  \<^verbatim>\<open>
  func networkNumberAndMask(n *IPNet) (ip IP, m IPMask) {
      if ip = n.IP.To4(); ip == nil {
          ip = n.IP
          if len(ip) != IPv6len { return nil, nil }
      }
      m = n.Mask
      switch len(m) {
      case IPv4len:
          if len(ip) != IPv4len { return nil, nil }
      case IPv6len:
          if len(ip) == IPv4len { m = m[12:] }
      default:
          return nil, nil
      }
      return
  }
  \<close>
\<close>

definition networkNumberAndMask :: "IPNet \<Rightarrow> IP \<times> IPMask" where
  "networkNumberAndMask n =
     (let ip = (if To4 (IP n) = [] then IP n else To4 (IP n)) in
      if To4 (IP n) = [] \<and> length ip \<noteq> IPv6len then ([], [])
      else let m = Mask n in
        if length m = IPv4len then (if length ip \<noteq> IPv4len then ([], []) else (ip, m))
        else if length m = IPv6len then (if length ip = IPv4len then (ip, drop 12 m) else (ip, m))
        else ([], []))"

text \<open>
  A run-time panic of the Go program is a value. The only panic the modelled code could
  raise is an index out of range in the comparison loop of \<^verbatim>\<open>Contains\<close>, so every
  index there is checked.
\<close>

datatype panic = IndexOutOfRange

definition index :: "'a list \<Rightarrow> nat \<Rightarrow> panic + 'a" where
  "index xs i = (if i < length xs then Inr (xs ! i) else Inl IndexOutOfRange)"

text \<open>
  \<^verbatim>\<open>
  func (n *IPNet) Contains(ip IP) bool {
      nn, m := networkNumberAndMask(n)
      if x := ip.To4(); x != nil { ip = x }
      l := len(ip)
      if l != len(nn) { return false }
      for i := 0; i < l; i++ {
          if nn[i]&m[i] != ip[i]&m[i] { return false }
      }
      return true
  }
  \<close>
\<close>

fun Contains_loop :: "IP \<Rightarrow> IPMask \<Rightarrow> IP \<Rightarrow> nat list \<Rightarrow> panic + bool" where
  "Contains_loop nn m ip [] = Inr True"
| "Contains_loop nn m ip (i # is) =
     (case (index nn i, index m i, index ip i) of
        (Inr a, Inr b, Inr c) \<Rightarrow>
          if a AND b \<noteq> c AND b then Inr False else Contains_loop nn m ip is
      | _ \<Rightarrow> Inl IndexOutOfRange)"

definition Contains :: "IPNet \<Rightarrow> IP \<Rightarrow> panic + bool" where
  "Contains n ip0 =
     (case networkNumberAndMask n of (nn, m) \<Rightarrow>
        let ip = (if To4 ip0 \<noteq> [] then To4 ip0 else ip0);
            l = length ip
        in if l \<noteq> length nn then Inr False
           else Contains_loop nn m ip [0..<l])"

text \<open>
  The shape of the networks that \<^verbatim>\<open>net.ParseCIDR\<close> returns: a 4-byte address with a
  4-byte mask, or a 16-byte address with a 16-byte mask.
\<close>

definition cidr_shaped :: "IPNet \<Rightarrow> bool" where
  "cidr_shaped n =
     ((length (IP n) = IPv4len \<and> length (Mask n) = IPv4len) \<or>
      (length (IP n) = IPv6len \<and> length (Mask n) = IPv6len))"

subsection \<open>Parsing the text of an address\<close>

text \<open>
  \<^verbatim>\<open>net.ParseIP\<close> as the textual parser of the standard library (the one that rejects
  decimal components with leading zeros): \<^verbatim>\<open>dtoi\<close> and \<^verbatim>\<open>xtoi\<close> read a decimal and a
  hexadecimal number and return the number, the count of characters read and a success
  flag; \<^verbatim>\<open>parseIPv4\<close> reads four dotted decimal components; \<^verbatim>\<open>parseIPv6\<close> reads up to
  eight colon-separated groups with at most one \<^verbatim>\<open>::\<close> and an optional trailing dotted
  quad; \<^verbatim>\<open>ParseIP\<close> chooses between them at the first dot or colon of the text. All of them
  return nil, here the empty list, for a text that is not an address.
\<close>

definition big :: int where
  "big = 0xFFFFFF"

definition is_digit :: "char \<Rightarrow> bool" where
  "is_digit c =
     ((of_char (CHR ''0'') :: nat) \<le> of_char c \<and> (of_char c :: nat) \<le> of_char (CHR ''9''))"

fun dtoi_loop :: "string \<Rightarrow> int \<Rightarrow> nat \<Rightarrow> int \<times> nat \<times> bool" where
  "dtoi_loop [] n i = (if i = 0 then (0, 0, False) else (n, i, True))"
| "dtoi_loop (c # cs) n i =
     (if is_digit c then
        (let n' = n * 10 + (of_char c - of_char (CHR ''0'')) in
         if n' \<ge> big then (big, i, False) else dtoi_loop cs n' (i + 1))
      else (if i = 0 then (0, 0, False) else (n, i, True)))"

definition dtoi :: "string \<Rightarrow> int \<times> nat \<times> bool" where
  "dtoi s = dtoi_loop s 0 0"

definition hex_value :: "char \<Rightarrow> int option" where
  "hex_value c =
     (let k = (of_char c :: nat) in
      if of_char (CHR ''0'') \<le> k \<and> k \<le> of_char (CHR ''9'')
        then Some (int k - of_char (CHR ''0''))
      else if of_char (CHR ''a'') \<le> k \<and> k \<le> of_char (CHR ''f'')
        then Some (int k - of_char (CHR ''a'') + 10)
      else if of_char (CHR ''A'') \<le> k \<and> k \<le> of_char (CHR ''F'')
        then Some (int k - of_char (CHR ''A'') + 10)
      else None)"

fun xtoi_loop :: "string \<Rightarrow> int \<Rightarrow> nat \<Rightarrow> int \<times> nat \<times> bool" where
  "xtoi_loop [] n i = (if i = 0 then (0, i, False) else (n, i, True))"
| "xtoi_loop (c # cs) n i =
     (case hex_value c of
        Some d \<Rightarrow>
          (let n' = n * 16 + d in
           if n' \<ge> big then (0, i, False) else xtoi_loop cs n' (i + 1))
      | None \<Rightarrow> (if i = 0 then (0, i, False) else (n, i, True)))"

definition xtoi :: "string \<Rightarrow> int \<times> nat \<times> bool" where
  "xtoi s = xtoi_loop s 0 0"

text \<open>
  \<^verbatim>\<open>
  func parseIPv4(s string) IP {
      var p [IPv4len]byte
      for i := 0; i < IPv4len; i++ {
          if len(s) == 0 { return nil }
          if i > 0 {
              if s[0] != '.' { return nil }
              s = s[1:]
          }
          n, c, ok := dtoi(s)
          if !ok || n > 0xFF { return nil }
          if c > 1 && s[0] == '0' { return nil }
          s = s[c:]
          p[i] = byte(n)
      }
      if len(s) != 0 { return nil }
      return IPv4(p[0], p[1], p[2], p[3])
  }
  \<close>
\<close>

fun parseIPv4_loop :: "nat list \<Rightarrow> string \<Rightarrow> byte list \<Rightarrow> (string \<times> byte list) option" where
  "parseIPv4_loop [] s p = Some (s, p)"
| "parseIPv4_loop (i # is) s p =
     (if length s = 0 then None
      else if i > 0 \<and> hd s \<noteq> CHR ''.'' then None
      else let s1 = (if i > 0 then tl s else s) in
        case dtoi s1 of (n, c, ok) \<Rightarrow>
          if \<not> ok \<or> n > 0xFF then None
          else if c > 1 \<and> hd s1 = CHR ''0'' then None
          else parseIPv4_loop is (drop c s1) (p[i := of_int n]))"

definition parseIPv4 :: "string \<Rightarrow> IP" where
  "parseIPv4 s =
     (case parseIPv4_loop [0..<IPv4len] s (replicate IPv4len 0) of
        None \<Rightarrow> []
      | Some (s', p) \<Rightarrow> if length s' \<noteq> 0 then [] else IPv4 (p ! 0) (p ! 1) (p ! 2) (p ! 3))"

text \<open>
  The loop of \<^verbatim>\<open>parseIPv6\<close>: \<open>i\<close> is the write position in the 16-byte result, always
  even and below 16 where a group is stored, and \<open>ellipsis\<close> is the position of \<^verbatim>\<open>::\<close>,
  or \<open>-1\<close>. The loop ends with \<open>None\<close> where the source returns nil and with the final
  variables where it leaves the loop.
\<close>

function parseIPv6_loop ::
  "string \<Rightarrow> nat \<Rightarrow> int \<Rightarrow> IP \<Rightarrow> (string \<times> nat \<times> int \<times> IP) option" where
  "parseIPv6_loop s i ellipsis ip =
     (if \<not> i < IPv6len then Some (s, i, ellipsis, ip)
      else case xtoi s of (n, c, ok) \<Rightarrow>
        if \<not> ok \<or> n > 0xFFFF then None
        else if c < length s \<and> s ! c = CHR ''.'' then
          (if ellipsis < 0 \<and> i \<noteq> IPv6len - IPv4len then None
           else if i + IPv4len > IPv6len then None
           else let ip4 = parseIPv4 s in
             if ip4 = [] then None
             else Some ([], i + IPv4len, ellipsis,
                        ip[i := ip4 ! 12, i + 1 := ip4 ! 13, i + 2 := ip4 ! 14, i + 3 := ip4 ! 15]))
        else
          let ip' = ip[i := of_int (n div 256), i + 1 := of_int n];
              i' = i + 2;
              s1 = drop c s
          in if length s1 = 0 then Some (s1, i', ellipsis, ip')
             else if hd s1 \<noteq> CHR '':'' \<or> length s1 = 1 then None
             else let s2 = tl s1 in
               if hd s2 = CHR '':'' then
                 (if ellipsis \<ge> 0 then None
                  else let s3 = tl s2 in
                    if length s3 = 0 then Some (s3, i', int i', ip')
                    else parseIPv6_loop s3 i' (int i') ip')
               else parseIPv6_loop s2 i' ellipsis ip')"
  by pat_completeness auto
termination
  by (relation "measure (\<lambda>(s, i, ellipsis, ip). IPv6len - i)") auto

declare parseIPv6_loop.simps [simp del]

text \<open>
  Where fewer than 16 bytes were read, the bytes after the ellipsis move to the end and
  the gap is zeroed, with the two descending loops of the source:
  \<^verbatim>\<open>
  n := IPv6len - i
  for j := i - 1; j >= ellipsis; j-- { ip[j+n] = ip[j] }
  for j := ellipsis + n - 1; j >= ellipsis; j-- { ip[j] = 0 }
  \<close>
\<close>

definition expand_ellipsis :: "IP \<Rightarrow> nat \<Rightarrow> nat \<Rightarrow> IP" where
  "expand_ellipsis ip i ellipsis =
     (let n = IPv6len - i;
          ip1 = foldl (\<lambda>p j. p[j + n := p ! j]) ip (rev [ellipsis..<i]);
          ip2 = foldl (\<lambda>p j. p[j := 0]) ip1 (rev [ellipsis..<ellipsis + n])
      in ip2)"

definition parseIPv6 :: "string \<Rightarrow> IP" where
  "parseIPv6 s0 =
     (let ip = replicate IPv6len 0;
          lead = (length s0 \<ge> 2 \<and> s0 ! 0 = CHR '':'' \<and> s0 ! 1 = CHR '':'');
          ellipsis = (if lead then 0 else - 1);
          s = (if lead then drop 2 s0 else s0)
      in if lead \<and> length s = 0 then ip
         else case parseIPv6_loop s 0 ellipsis ip of
                None \<Rightarrow> []
              | Some (s', i, ellipsis', ip') \<Rightarrow>
                  if length s' \<noteq> 0 then []
                  else if i < IPv6len then
                    (if ellipsis' < 0 then [] else expand_ellipsis ip' i (nat ellipsis'))
                  else if ellipsis' \<ge> 0 then []
                  else ip')"

text \<open>
  \<^verbatim>\<open>
  func ParseIP(s string) IP {
      for i := 0; i < len(s); i++ {
          switch s[i] {
          case '.': return parseIPv4(s)
          case ':': return parseIPv6(s)
          }
      }
      return nil
  }
  \<close>
\<close>

fun ParseIP_loop :: "string \<Rightarrow> string \<Rightarrow> IP" where
  "ParseIP_loop s [] = []"
| "ParseIP_loop s (c # cs) =
     (if c = CHR ''.'' then parseIPv4 s
      else if c = CHR '':'' then parseIPv6 s
      else ParseIP_loop s cs)"

definition ParseIP :: "string \<Rightarrow> IP" where
  "ParseIP s = ParseIP_loop s s"

section \<open>The match predicate\<close>

text \<open>
  Modelled from the spec: the struct \<^verbatim>\<open>DNSEntry\<close> is declared in a file of the repository
  other than \<^verbatim>\<open>main.go\<close>. The specification gives it the fields \<open>Name\<close> and \<open>Value\<close>;
  \<^verbatim>\<open>main.go\<close> reads both as strings and builds an entry from a name alone, which leaves
  \<open>Value\<close> empty.
\<close>

record DNSEntry =
  Name :: string
  Value :: string

text \<open>
  The loop over the prefixes (lines 143 to 147): \<open>Inr True\<close> where the source returns
  true from inside the loop, \<open>Inr False\<close> where the loop runs to its end.
\<close>

fun isValidResult_ips :: "IPNet list \<Rightarrow> IP \<Rightarrow> panic + bool" where
  "isValidResult_ips [] entryIp = Inr False"
| "isValidResult_ips (ip # ips) entryIp =
     (case Contains ip entryIp of
        Inl p \<Rightarrow> Inl p
      | Inr True \<Rightarrow> Inr True
      | Inr False \<Rightarrow> isValidResult_ips ips entryIp)"

text \<open>The allow-list and deny-list checks (lines 155 to 169).\<close>

definition isValidResult_domains :: "DNSEntry \<Rightarrow> string list \<Rightarrow> string list \<Rightarrow> bool" where
  "isValidResult_domains dnsentry allowed blacklist =
     (if length allowed > 0 \<and> \<not> isAllowed allowed (Name dnsentry) then False
      else if length blacklist > 0 \<and> isAllowed blacklist (Name dnsentry) then False
      else True)"

text \<open>
  \<^verbatim>\<open>
  func isValidResult(dnsentry DNSEntry, allowed []string, blacklist []string,
                     ips []*net.IPNet) bool {
      if len(ips) > 0 {
          entryIp := net.ParseIP(dnsentry.Value)
          for _, ip := range ips {
              if ip.Contains(entryIp) { return true }
          }
          if len(allowed) <= 0 { return false }
      }
      if len(allowed) > 0 {
          if !isAllowed(allowed, dnsentry.Name) { return false }
      }
      if len(blacklist) > 0 {
          if isAllowed(blacklist, dnsentry.Name) { return false }
      }
      return true
  }
  \<close>
\<close>

definition isValidResult ::
  "DNSEntry \<Rightarrow> string list \<Rightarrow> string list \<Rightarrow> IPNet list \<Rightarrow> panic + bool" where
  "isValidResult dnsentry allowed blacklist ips =
     (if length ips > 0 then
        (case isValidResult_ips ips (ParseIP (Value dnsentry)) of
           Inl p \<Rightarrow> Inl p
         | Inr True \<Rightarrow> Inr True
         | Inr False \<Rightarrow>
             if length allowed \<le> 0 then Inr False
             else Inr (isValidResult_domains dnsentry allowed blacklist))
      else Inr (isValidResult_domains dnsentry allowed blacklist))"

section \<open>The process: counters, output and the two drivers\<close>

text \<open>
  The state of the process that the drivers change: the package variables \<^verbatim>\<open>count\<close>
  (initially 1) and \<^verbatim>\<open>valid\<close> (initially 0), the lines written to standard output and the
  lines written by \<^verbatim>\<open>log\<close>. Go's \<^verbatim>\<open>int\<close> is taken to be 64 bits wide; an increment wraps.
  The package variable \<^verbatim>\<open>tt\<close> and the elapsed time it measures are not modelled: the
  duration in the progress line is the placeholder \<open>ArgDuration\<close>.
\<close>

datatype arg = ArgInt int | ArgStr string | ArgDuration

datatype log_line = Log string "arg list" | PrintDefaults

record proc =
  count :: int
  valid :: int
  stdout :: "string list"
  stderr :: "log_line list"

definition init_proc :: proc where
  "init_proc = \<lparr>count = 1, valid = 0, stdout = [], stderr = []\<rparr>"

definition wrap_int :: "int \<Rightarrow> int" where
  "wrap_int x = (x + 2 ^ 63) mod 2 ^ 64 - 2 ^ 63"

text \<open>
  A driver ends the process early through \<^verbatim>\<open>log.Fatal\<close> (a log line, then exit status 1)
  or through a panic. A function of the process returns the state it reached and, where
  it ended the process, how.
\<close>

datatype halt = Exit int | Panic panic

definition println :: "string \<Rightarrow> proc \<Rightarrow> proc" where
  "println s w = w\<lparr>stdout := stdout w @ [s]\<rparr>"

definition logf :: "string \<Rightarrow> arg list \<Rightarrow> proc \<Rightarrow> proc" where
  "logf fmt args w = w\<lparr>stderr := stderr w @ [Log fmt args]\<rparr>"

text \<open>
  The body of the loop of \<^verbatim>\<open>parseFDNS\<close> (lines 121 to 134), over the records that
  \<^verbatim>\<open>parseDnsHosts\<close> sends:
  \<^verbatim>\<open>
  for dnsentry := range parseDnsHosts(fname) {
      if count%1000000 == 0 && count > 0 {
          log.Printf("FDNS: %vm processed, %v valid (took %v)", count/1000000, valid, time.Since(tt))
          tt = time.Now()
      }
      if isValidResult(dnsentry, allowed, blacklist, ips) {
          fmt.Println(dnsentry.Name)
          valid++
      }
      count++
  }
  \<close>
\<close>

fun parseFDNS_loop ::
  "DNSEntry list \<Rightarrow> string list \<Rightarrow> string list \<Rightarrow> IPNet list \<Rightarrow> proc \<Rightarrow> halt option \<times> proc" where
  "parseFDNS_loop [] allowed blacklist ips w = (None, w)"
| "parseFDNS_loop (dnsentry # rest) allowed blacklist ips w =
     (let w1 = (if count w mod 1000000 = 0 \<and> count w > 0
                then logf ''FDNS: %vm processed, %v valid (took %v)''
                       [ArgInt (count w div 1000000), ArgInt (valid w), ArgDuration] w
                else w)
      in case isValidResult dnsentry allowed blacklist ips of
           Inl p \<Rightarrow> (Some (Panic p), w1)
         | Inr b \<Rightarrow>
             let w2 = (if b then (println (Name dnsentry) w1)\<lparr>valid := wrap_int (valid w1 + 1)\<rparr>
                       else w1)
             in parseFDNS_loop rest allowed blacklist ips (w2\<lparr>count := wrap_int (count w2 + 1)\<rparr>))"

text \<open>
  \<^verbatim>\<open>parseDnsHosts\<close> is a function of the repository outside \<^verbatim>\<open>main.go\<close>; the model takes
  it as a parameter that gives, for a file name, the finite sequence of records sent on the
  channel.
  \<^verbatim>\<open>
  func parseFDNS(fname string, allowed []string, blacklist []string, ips []*net.IPNet) {
      if len(allowed) <= 0 && len(ips) <= 0 {
          log.Fatal("No valid domains (0) and IPs (0) parsed.")
      }
      for dnsentry := range parseDnsHosts(fname) { ... }
  }
  \<close>
\<close>

definition parseFDNS ::
  "(string \<Rightarrow> DNSEntry list) \<Rightarrow> string \<Rightarrow> string list \<Rightarrow> string list \<Rightarrow> IPNet list \<Rightarrow> proc
     \<Rightarrow> halt option \<times> proc" where
  "parseFDNS parseDnsHosts fname allowed blacklist ips w =
     (if length allowed \<le> 0 \<and> length ips \<le> 0
      then (Some (Exit 1), logf ''No valid domains (0) and IPs (0) parsed.'' [] w)
      else parseFDNS_loop (parseDnsHosts fname) allowed blacklist ips w)"

text \<open>
  The certificate-transparency driver. The network and the JSON decoder are parameters:
  \<open>httpGet\<close> gives for a URL a failure of \<^verbatim>\<open>http.Get\<close>, a failure of
  \<^verbatim>\<open>ioutil.ReadAll\<close> or the body; \<open>unmarshal body bodyDomain\<close> gives the
  \<^verbatim>\<open>name_value\<close> fields held by the slice \<^verbatim>\<open>bodyDomain\<close> after
  \<^verbatim>\<open>json.Unmarshal(body, &bodyDomain)\<close>. The slice is declared outside the loop over
  the domains, so the decoder sees what the previous round left in it.
\<close>

datatype response = GetError string | ReadError | Body string

definition crt_url :: "string \<Rightarrow> string" where
  "crt_url domain = ''https://crt.sh/?q=%'' @ domain @ ''&output=json''"

text \<open>
  The loop over the decoded names (lines 104 to 109):
  \<^verbatim>\<open>
  for _, d := range bodyDomain {
      if isValidResult(DNSEntry{Name: d.Domain}, allowed, blacklist, []*net.IPNet{}) {
          fmt.Println(d.Domain)
          valid++
      }
  }
  \<close>
\<close>

fun bodyDomain_loop :: "string list \<Rightarrow> string list \<Rightarrow> string list \<Rightarrow> proc \<Rightarrow> halt option \<times> proc" where
  "bodyDomain_loop [] allowed blacklist w = (None, w)"
| "bodyDomain_loop (d # ds) allowed blacklist w =
     (case isValidResult \<lparr>Name = d, Value = []\<rparr> allowed blacklist [] of
        Inl p \<Rightarrow> (Some (Panic p), w)
      | Inr b \<Rightarrow>
          bodyDomain_loop ds allowed blacklist
            (if b then (println d w)\<lparr>valid := wrap_int (valid w + 1)\<rparr> else w))"

text \<open>
  The loop over the allow list (lines 88 to 112); the first list is the part of
  \<open>allowed\<close> still to be queried.
\<close>

fun queryCATransparency_loop ::
  "(string \<Rightarrow> response) \<Rightarrow> (string \<Rightarrow> string list \<Rightarrow> string list) \<Rightarrow> string list \<Rightarrow>
     string list \<Rightarrow> string list \<Rightarrow> string list \<Rightarrow> proc \<Rightarrow> halt option \<times> proc" where
  "queryCATransparency_loop httpGet unmarshal [] allowed blacklist bodyDomain w = (None, w)"
| "queryCATransparency_loop httpGet unmarshal (domain # rest) allowed blacklist bodyDomain w =
     (case httpGet (crt_url domain) of
        GetError err \<Rightarrow>
          queryCATransparency_loop httpGet unmarshal rest allowed blacklist bodyDomain
            (logf ''Error contacting crt.sh: %s'' [ArgStr err] w)
      | ReadError \<Rightarrow>
          queryCATransparency_loop httpGet unmarshal rest allowed blacklist bodyDomain w
      | Body body \<Rightarrow>
          (let bodyDomain' = unmarshal body bodyDomain in
           case bodyDomain_loop bodyDomain' allowed blacklist w of
             (Some h, w') \<Rightarrow> (Some h, w')
           | (None, w') \<Rightarrow>
               queryCATransparency_loop httpGet unmarshal rest allowed blacklist bodyDomain'
                 (logf (''CA transparency: Got %v certificates for '' @ [CHR 0x27] @ ''%v'' @ [CHR 0x27])
                    [ArgInt (int (length bodyDomain')), ArgStr domain] w')))"

definition queryCATransparency ::
  "(string \<Rightarrow> response) \<Rightarrow> (string \<Rightarrow> string list \<Rightarrow> string list) \<Rightarrow> string list \<Rightarrow>
     string list \<Rightarrow> proc \<Rightarrow> halt option \<times> proc" where
  "queryCATransparency httpGet unmarshal allowed blacklist w =
     queryCATransparency_loop httpGet unmarshal allowed allowed blacklist [] w"

text \<open>
  For the statement of what the driver prints: the successive contents of
  \<^verbatim>\<open>bodyDomain\<close> that the loop over the decoded names ranges over, one for each domain
  whose response was read.
\<close>

fun ct_bodies ::
  "(string \<Rightarrow> response) \<Rightarrow> (string \<Rightarrow> string list \<Rightarrow> string list) \<Rightarrow> string list \<Rightarrow>
     string list \<Rightarrow> string list list" where
  "ct_bodies httpGet unmarshal [] bodyDomain = []"
| "ct_bodies httpGet unmarshal (domain # rest) bodyDomain =
     (case httpGet (crt_url domain) of
        Body body \<Rightarrow>
          unmarshal body bodyDomain # ct_bodies httpGet unmarshal rest (unmarshal body bodyDomain)
      | _ \<Rightarrow> ct_bodies httpGet unmarshal rest bodyDomain)"

section \<open>The orchestrator\<close>

text \<open>
  The command-line flags, under the names of the variables that hold them; note that
  \<open>useCATrans\<close> holds the flag \<^verbatim>\<open>-catransoff\<close>.
\<close>

record flags =
  parseFile :: string
  parseDomainFilter :: string
  parseDomainBlacklist :: string
  useCATrans :: bool

text \<open>
  \<^verbatim>\<open>parseDomainFile\<close> is a function of the repository outside \<^verbatim>\<open>main.go\<close>; the model
  takes it as a parameter that gives, for a path, an error or the domains and the
  prefixes read from the file. Lines 31 to 60 of \<^verbatim>\<open>main\<close> set the three lists:
  \<^verbatim>\<open>
  if *parseFile == "" { fmt.Println("Usage:"); flag.PrintDefaults(); os.Exit(1) }
  if *parseDomainFilter != "" {
      allowedDomains, ips, err = parseDomainFile(*parseDomainFilter)
      if err != nil { log.Fatalf("Error reading domain file: %v", err) }
      log.Printf("Limiting to %v 2nd-lvl domains.", len(allowedDomains))
  }
  if *parseDomainBlacklist != "" {
      blacklistDomains, ips, err = parseDomainFile(*parseDomainBlacklist)
      if err != nil { log.Fatalf("Error reading blacklist domain file: %v", err) }
      log.Printf("Limiting to %v blacklisted 2nd-lvl domains.", len(blacklistDomains))
  }
  \<close>
  The result is the state, how the process ended if it did, and the lists
  \<open>(allowedDomains, blacklistDomains, ips)\<close>.
\<close>

definition load_allowed ::
  "(string \<Rightarrow> string + string list \<times> IPNet list) \<Rightarrow> flags \<Rightarrow> proc
     \<Rightarrow> halt option \<times> proc \<times> string list \<times> string list \<times> IPNet list" where
  "load_allowed parseDomainFile f w =
     (if parseDomainFilter f \<noteq> [] then
        (case parseDomainFile (parseDomainFilter f) of
           Inl err \<Rightarrow>
             (Some (Exit 1), logf ''Error reading domain file: %v'' [ArgStr err] w, [], [], [])
         | Inr (allowedDomains, ips) \<Rightarrow>
             (None,
              logf ''Limiting to %v 2nd-lvl domains.'' [ArgInt (int (length allowedDomains))] w,
              allowedDomains, [], ips))
      else (None, w, [], [], []))"

definition load_blacklist ::
  "(string \<Rightarrow> string + string list \<times> IPNet list) \<Rightarrow> flags \<Rightarrow> proc
     \<Rightarrow> string list \<Rightarrow> IPNet list
     \<Rightarrow> halt option \<times> proc \<times> string list \<times> string list \<times> IPNet list" where
  "load_blacklist parseDomainFile f w allowedDomains ips =
     (if parseDomainBlacklist f \<noteq> [] then
        (case parseDomainFile (parseDomainBlacklist f) of
           Inl err \<Rightarrow>
             (Some (Exit 1), logf ''Error reading blacklist domain file: %v'' [ArgStr err] w,
              allowedDomains, [], ips)
         | Inr (blacklistDomains, ips') \<Rightarrow>
             (None,
              logf ''Limiting to %v blacklisted 2nd-lvl domains.''
                [ArgInt (int (length blacklistDomains))] w,
              allowedDomains, blacklistDomains, ips'))
      else (None, w, allowedDomains, [], ips))"

definition main_lists ::
  "(string \<Rightarrow> string + string list \<times> IPNet list) \<Rightarrow> flags \<Rightarrow> proc
     \<Rightarrow> halt option \<times> proc \<times> string list \<times> string list \<times> IPNet list" where
  "main_lists parseDomainFile f w =
     (if parseFile f = [] then
        (Some (Exit 1), (println ''Usage:'' w)\<lparr>stderr := stderr w @ [PrintDefaults]\<rparr>, [], [], [])
      else
        case load_allowed parseDomainFile f w of
          (Some h, w1, allowedDomains, blacklistDomains, ips) \<Rightarrow>
            (Some h, w1, allowedDomains, blacklistDomains, ips)
        | (None, w1, allowedDomains, blacklistDomains, ips) \<Rightarrow>
            load_blacklist parseDomainFile f w1 allowedDomains ips)"

text \<open>
  The bodies of the two goroutines (lines 63 to 67 and 71 to 75): each logs that it has
  started and then runs its driver.
\<close>

definition fdns_worker ::
  "(string \<Rightarrow> DNSEntry list) \<Rightarrow> string \<Rightarrow> string list \<Rightarrow> string list \<Rightarrow> IPNet list \<Rightarrow> proc
     \<Rightarrow> halt option \<times> proc" where
  "fdns_worker parseDnsHosts fname allowed blacklist ips w =
     parseFDNS parseDnsHosts fname allowed blacklist ips (logf ''Parsing FDNS file.'' [] w)"

definition ct_worker ::
  "(string \<Rightarrow> response) \<Rightarrow> (string \<Rightarrow> string list \<Rightarrow> string list) \<Rightarrow> string list \<Rightarrow>
     string list \<Rightarrow> proc \<Rightarrow> halt option \<times> proc" where
  "ct_worker httpGet unmarshal allowed blacklist w =
     queryCATransparency httpGet unmarshal allowed blacklist
       (logf ''Querying certificate transparency logs.'' [] w)"

text \<open>
  \<^verbatim>\<open>main\<close> either ends the process before it starts a worker (\<open>Halted\<close>) or starts the
  bulk worker and, unless \<^verbatim>\<open>-catransoff\<close> is set, the certificate-transparency worker
  (\<open>Workers\<close>). The two workers run concurrently in the source. The model gives the outcome
  of each worker run on its own from the state in which \<^verbatim>\<open>main\<close> started it; it does not
  model how their steps interleave, their unsynchronised use of \<^verbatim>\<open>valid\<close>, or the
  line \<^verbatim>\<open>Finished.\<close> that \<^verbatim>\<open>main\<close> logs after both have returned.
\<close>

datatype outcome =
  Halted halt proc
| Workers "halt option \<times> proc" "(halt option \<times> proc) option"

definition main ::
  "(string \<Rightarrow> string + string list \<times> IPNet list) \<Rightarrow> (string \<Rightarrow> DNSEntry list) \<Rightarrow>
     (string \<Rightarrow> response) \<Rightarrow> (string \<Rightarrow> string list \<Rightarrow> string list) \<Rightarrow> flags \<Rightarrow> proc \<Rightarrow> outcome" where
  "main parseDomainFile parseDnsHosts httpGet unmarshal f w =
     (case main_lists parseDomainFile f w of
        (Some h, w1, allowedDomains, blacklistDomains, ips) \<Rightarrow> Halted h w1
      | (None, w1, allowedDomains, blacklistDomains, ips) \<Rightarrow>
          Workers (fdns_worker parseDnsHosts (parseFile f) allowedDomains blacklistDomains ips w1)
                  (if \<not> useCATrans f
                   then Some (ct_worker httpGet unmarshal allowedDomains blacklistDomains w1)
                   else None))"

section \<open>Properties of suffix matching\<close>

lemma HasSuffix_iff_suffix: "HasSuffix s suf \<longleftrightarrow> suffix suf s"
proof
  assume "HasSuffix s suf"
  then have "drop (length s - length suf) s = suf"
    by (simp add: HasSuffix_def)
  then show "suffix suf s"
    by (metis suffix_drop)
next
  assume "suffix suf s"
  then obtain pre where "s = pre @ suf"
    by (auto simp: suffix_def)
  then show "HasSuffix s suf"
    by (simp add: HasSuffix_def)
qed

lemma isAllowed_iff_ex: "isAllowed patterns name \<longleftrightarrow> (\<exists>p \<in> set patterns. HasSuffix name p)"
  by (induction patterns) auto

lemma spec_label_match_imp_HasSuffix: "spec_label_match p name \<Longrightarrow> HasSuffix name p"
  unfolding spec_label_match_def HasSuffix_iff_suffix
  by (auto simp: suffix_def)

section \<open>The address containment test never fails\<close>

lemma To4_length: "To4 ip \<noteq> [] \<Longrightarrow> length (To4 ip) = 4"
  by (auto simp: To4_def IPv4len_def IPv6len_def split: if_splits)

lemma networkNumberAndMask_lengths:
  "networkNumberAndMask n = (nn, m) \<Longrightarrow> length m = length nn"
  using To4_length [of "IP n"]
  by (auto simp: networkNumberAndMask_def Let_def IPv4len_def IPv6len_def split: if_splits)

lemma Contains_loop_total:
  "\<forall>i \<in> set is. i < length nn \<and> i < length m \<and> i < length ip \<Longrightarrow>
   \<exists>b. Contains_loop nn m ip is = Inr b"
  by (induction "is") (auto simp: index_def)

lemma Contains_total: "\<exists>b. Contains n ip = Inr b"
proof -
  obtain nn m where nm: "networkNumberAndMask n = (nn, m)"
    by (cases "networkNumberAndMask n")
  then have len: "length m = length nn"
    by (rule networkNumberAndMask_lengths)
  show ?thesis
    using Contains_loop_total [of "[0..<length nn]" nn m] len
    by (auto simp: Contains_def nm Let_def)
qed

lemma Contains_nil: "cidr_shaped n \<Longrightarrow> Contains n [] = Inr False"
  by (auto simp: Contains_def networkNumberAndMask_def cidr_shaped_def To4_def Let_def
      IPv4len_def IPv6len_def split: if_splits)

lemma isValidResult_ips_eq:
  "isValidResult_ips ips x = Inr (\<exists>n \<in> set ips. Contains n x = Inr True)"
proof (induction ips)
  case Nil
  show ?case by simp
next
  case (Cons n ips)
  obtain b where "Contains n x = Inr b"
    using Contains_total by blast
  with Cons show ?case
    by (cases b) auto
qed

lemma isValidResult_domains_eq:
  "isValidResult_domains e a b \<longleftrightarrow> (a = [] \<or> isAllowed a (Name e)) \<and> \<not> isAllowed b (Name e)"
  by (cases b) (auto simp: isValidResult_domains_def)

lemma isValidResult_eq:
  "isValidResult e a b ips =
     Inr (if ips \<noteq> []
          then (\<exists>n \<in> set ips. Contains n (ParseIP (Value e)) = Inr True) \<or>
               (a \<noteq> [] \<and> isValidResult_domains e a b)
          else isValidResult_domains e a b)"
  by (auto simp: isValidResult_def isValidResult_ips_eq split: bool.splits)

section \<open>The scan loops\<close>

lemma isValidResult_total: "\<exists>v. isValidResult e a b ips = Inr v"
  by (simp add: isValidResult_eq)

lemma parseFDNS_loop_fst: "fst (parseFDNS_loop recs a b ips w) = None"
proof (induction recs arbitrary: w)
  case Nil
  show ?case by simp
next
  case (Cons e recs)
  obtain v where "isValidResult e a b ips = Inr v"
    using isValidResult_total by blast
  with Cons show ?case
    by (simp add: Let_def)
qed

lemma parseFDNS_loop_stdout:
  "stdout (snd (parseFDNS_loop recs a b ips w)) =
     stdout w @ map Name (filter (\<lambda>e. isValidResult e a b ips = Inr True) recs)"
proof (induction recs arbitrary: w)
  case Nil
  show ?case by simp
next
  case (Cons e recs)
  obtain v where "isValidResult e a b ips = Inr v"
    using isValidResult_total by blast
  with Cons show ?case
    by (simp add: Let_def println_def logf_def)
qed

lemma wrap_int_id: "- (2 ^ 63) \<le> x \<Longrightarrow> x < 2 ^ 63 \<Longrightarrow> wrap_int x = x"
  by (simp add: wrap_int_def)

lemma parseFDNS_loop_count:
  "- (2 ^ 63) \<le> count w \<Longrightarrow> count w + int (length recs) < 2 ^ 63 \<Longrightarrow>
   count (snd (parseFDNS_loop recs a b ips w)) = count w + int (length recs)"
proof (induction recs arbitrary: w)
  case Nil
  show ?case by simp
next
  case (Cons e recs)
  obtain v where v: "isValidResult e a b ips = Inr v"
    using isValidResult_total by blast
  have step: "wrap_int (count w + 1) = count w + 1"
    using Cons.prems by (intro wrap_int_id) auto
  show ?case
    using Cons.prems
    by (simp add: v Let_def println_def logf_def step Cons.IH)
qed

lemma parseFDNS_loop_valid:
  "- (2 ^ 63) \<le> valid w \<Longrightarrow>
   valid w + int (length (filter (\<lambda>e. isValidResult e a b ips = Inr True) recs)) < 2 ^ 63 \<Longrightarrow>
   valid (snd (parseFDNS_loop recs a b ips w)) =
     valid w + int (length (filter (\<lambda>e. isValidResult e a b ips = Inr True) recs))"
proof (induction recs arbitrary: w)
  case Nil
  show ?case by simp
next
  case (Cons e recs)
  obtain v where v: "isValidResult e a b ips = Inr v"
    using isValidResult_total by blast
  show ?case
  proof (cases v)
    case True
    have step: "wrap_int (valid w + 1) = valid w + 1"
      using Cons.prems True v by (intro wrap_int_id) auto
    show ?thesis
      using Cons.prems True
      by (simp add: v Let_def println_def logf_def step Cons.IH)
  next
    case False
    show ?thesis
      using Cons.prems False
      by (simp add: v Let_def println_def logf_def Cons.IH)
  qed
qed

lemma isValidResult_name_only:
  "allowed \<noteq> [] \<Longrightarrow>
   isValidResult \<lparr>Name = d, Value = []\<rparr> allowed blacklist [] =
     Inr (isAllowed allowed d \<and> \<not> isAllowed blacklist d)"
  by (simp add: isValidResult_eq isValidResult_domains_eq)

lemma bodyDomain_loop_eq:
  "allowed \<noteq> [] \<Longrightarrow>
   fst (bodyDomain_loop ds allowed blacklist w) = None \<and>
   stdout (snd (bodyDomain_loop ds allowed blacklist w)) =
     stdout w @ filter (\<lambda>d. isAllowed allowed d \<and> \<not> isAllowed blacklist d) ds"
  by (induction ds arbitrary: w) (simp_all add: isValidResult_name_only println_def)

lemma queryCATransparency_loop_eq:
  "allowed \<noteq> [] \<Longrightarrow>
   fst (queryCATransparency_loop httpGet unmarshal ds allowed blacklist bodyDomain w) = None \<and>
   stdout (snd (queryCATransparency_loop httpGet unmarshal ds allowed blacklist bodyDomain w)) =
     stdout w @ concat (map (filter (\<lambda>d. isAllowed allowed d \<and> \<not> isAllowed blacklist d))
                          (ct_bodies httpGet unmarshal ds bodyDomain))"
proof (induction ds arbitrary: bodyDomain w)
  case Nil
  show ?case by simp
next
  case (Cons domain rest)
  show ?case
  proof (cases "httpGet (crt_url domain)")
    case (GetError err)
    then show ?thesis
      using Cons.IH [OF Cons.prems] by (simp add: logf_def)
  next
    case ReadError
    then show ?thesis
      using Cons.IH [OF Cons.prems] by simp
  next
    case (Body body)
    obtain w' where w': "bodyDomain_loop (unmarshal body bodyDomain) allowed blacklist w = (None, w')"
      using bodyDomain_loop_eq [OF Cons.prems, of "unmarshal body bodyDomain" blacklist w]
      by (cases "bodyDomain_loop (unmarshal body bodyDomain) allowed blacklist w") auto
    have out: "stdout w' = stdout w @
        filter (\<lambda>d. isAllowed allowed d \<and> \<not> isAllowed blacklist d) (unmarshal body bodyDomain)"
      using bodyDomain_loop_eq [OF Cons.prems, of "unmarshal body bodyDomain" blacklist w] w'
      by simp
    show ?thesis
      using Cons.IH [OF Cons.prems] Body w' out
      by (simp add: Let_def logf_def)
  qed
qed

section \<open>Suffix matching (C1)\<close>

text \<open>
  C1 claims that \<open>isAllowed\<close> accepts a name exactly when it equals a pattern or ends with
  a pattern preceded by a label boundary, so that the pattern \<^verbatim>\<open>example.com\<close> rejects
  \<^verbatim>\<open>notexample.com\<close>. The source compares with \<^verbatim>\<open>strings.HasSuffix\<close> alone: the
  pattern \<^verbatim>\<open>example.com\<close> accepts \<^verbatim>\<open>notexample.com\<close>, which the rule of the
  specification rejects.
\<close>

theorem isAllowed_label_boundary_counterexample:
  "isAllowed [''example.com''] ''notexample.com'' \<and>
   \<not> spec_isAllowed [''example.com''] ''notexample.com''"
  by code_simp

text \<open>
  C1 as amended: \<open>isAllowed patterns name\<close> holds exactly when \<open>name\<close> ends with one of
  the patterns as a plain string suffix, with or without a label boundary before it. Every
  name that the rule of the specification accepts is accepted, and the pattern
  \<^verbatim>\<open>example.com\<close> accepts \<^verbatim>\<open>notexample.com\<close>, \<^verbatim>\<open>sub.example.com\<close> and
  \<^verbatim>\<open>example.com\<close>.
\<close>

theorem isAllowed_plain_suffix:
  "(isAllowed patterns name \<longleftrightarrow> (\<exists>p \<in> set patterns. suffix p name)) \<and>
   (spec_isAllowed patterns name \<longrightarrow> isAllowed patterns name) \<and>
   isAllowed [''example.com''] ''notexample.com'' \<and>
   isAllowed [''example.com''] ''sub.example.com'' \<and>
   isAllowed [''example.com''] ''example.com''"
proof -
  have general: "isAllowed patterns name \<longleftrightarrow> (\<exists>p \<in> set patterns. suffix p name)"
    by (simp add: isAllowed_iff_ex HasSuffix_iff_suffix)
  have spec: "spec_isAllowed patterns name \<longrightarrow> isAllowed patterns name"
    by (auto simp: spec_isAllowed_def list_ex_iff isAllowed_iff_ex
        dest: spec_label_match_imp_HasSuffix)
  have ex1: "isAllowed [''example.com''] ''notexample.com''"
    by code_simp
  have ex2: "isAllowed [''example.com''] ''sub.example.com''"
    by code_simp
  have ex3: "isAllowed [''example.com''] ''example.com''"
    by code_simp
  from general spec ex1 ex2 ex3 show ?thesis
    by blast
qed

theorem isAllowed_plain_suffix_witness:
  "spec_isAllowed [''example.com''] ''sub.example.com'' \<and>
   isAllowed [''example.com''] ''sub.example.com'' \<and>
   (\<exists>p \<in> set [''example.com'']. suffix p ''sub.example.com'')"
proof -
  have h: "spec_isAllowed [''example.com''] ''sub.example.com''"
    by code_simp
  from isAllowed_plain_suffix [of "[''example.com'']" "''sub.example.com''"] h
  show ?thesis
    by blast
qed

text \<open>
  A label boundary is enforced where the pattern itself starts with a dot, as the patterns
  of the specification's data model do; such a pattern no longer accepts the bare domain.
\<close>

lemma isAllowed_dot_prefixed_pattern:
  "\<not> isAllowed [''.example.com''] ''notexample.com'' \<and>
   isAllowed [''.example.com''] ''sub.example.com'' \<and>
   \<not> isAllowed [''.example.com''] ''example.com''"
  by code_simp

section \<open>The deny list and the prefix check (C2)\<close>

text \<open>
  C2 claims that an entry whose name ends with a deny-list entry is rejected whichever
  criterion admitted it. In the source the prefix check returns true before the deny list
  is read: with the prefix 10.0.0.0/8, the allow list \<^verbatim>\<open>example.com\<close> and the deny list
  \<^verbatim>\<open>internal.example.com\<close>, the entry \<^verbatim>\<open>internal.example.com\<close> with the value
  \<^verbatim>\<open>10.1.2.3\<close> is denied by name and yet accepted.
\<close>

theorem deny_list_bypassed_by_ip_match_counterexample:
  "isAllowed [''internal.example.com''] ''internal.example.com'' \<and>
   isValidResult \<lparr>Name = ''internal.example.com'', Value = ''10.1.2.3''\<rparr>
     [''example.com''] [''internal.example.com'']
     [\<lparr>IP = [10, 0, 0, 0], Mask = [255, 0, 0, 0]\<rparr>] = Inr True"
  by code_simp

text \<open>
  C2 as amended: the deny list is the final filter of the name checks. For every entry whose
  name ends with a deny-list entry, \<open>isValidResult\<close> returns false unless the value of the
  entry parses to an address inside one of the configured prefixes; exactly in that case it
  returns true, whatever the allow list holds.
\<close>

theorem deny_list_excludes_unless_ip_match:
  "isAllowed blacklist (Name e) \<Longrightarrow>
   isValidResult e allowed blacklist ips =
     Inr (\<exists>n \<in> set ips. Contains n (ParseIP (Value e)) = Inr True)"
  by (auto simp: isValidResult_eq isValidResult_domains_eq)

theorem deny_list_excludes_unless_ip_match_witness:
  "isAllowed [''internal.example.com''] ''internal.example.com'' \<and>
   isValidResult \<lparr>Name = ''internal.example.com'', Value = ''8.8.8.8''\<rparr>
     [''example.com''] [''internal.example.com''] [] = Inr False"
proof -
  have h: "isAllowed [''internal.example.com'']
             (Name \<lparr>Name = ''internal.example.com'', Value = ''8.8.8.8''\<rparr>)"
    by code_simp
  from deny_list_excludes_unless_ip_match [OF h, of "[''example.com'']" "[]"] h
  show ?thesis
    by simp
qed

section \<open>The prefix check: short circuit and fallthrough (C3, C4)\<close>

text \<open>
  C3: where the value of the entry parses to an address that one of the configured prefixes
  contains, \<open>isValidResult\<close> returns true for every allow list and every deny list: neither
  is consulted.
\<close>

theorem ip_prefix_short_circuit:
  "n \<in> set ips \<Longrightarrow> Contains n (ParseIP (Value e)) = Inr True \<Longrightarrow>
   isValidResult e allowed blacklist ips = Inr True"
  by (auto simp: isValidResult_eq)

theorem ip_prefix_short_circuit_witness:
  "\<lparr>IP = [10, 0, 0, 0], Mask = [255, 0, 0, 0]\<rparr> \<in> set [\<lparr>IP = [10, 0, 0, 0], Mask = [255, 0, 0, 0]\<rparr>] \<and>
   Contains \<lparr>IP = [10, 0, 0, 0], Mask = [255, 0, 0, 0]\<rparr> (ParseIP ''10.1.2.3'') = Inr True \<and>
   isValidResult \<lparr>Name = ''unrelated.net'', Value = ''10.1.2.3''\<rparr> [''other.com''] []
     [\<lparr>IP = [10, 0, 0, 0], Mask = [255, 0, 0, 0]\<rparr>] = Inr True"
proof -
  have h1: "\<lparr>IP = [10, 0, 0, 0], Mask = [255, 0, 0, 0]\<rparr> \<in> set [\<lparr>IP = [10, 0, 0, 0], Mask = [255, 0, 0, 0]\<rparr>]"
    by simp
  have h2: "Contains \<lparr>IP = [10, 0, 0, 0], Mask = [255, 0, 0, 0]\<rparr>
              (ParseIP (Value \<lparr>Name = ''unrelated.net'', Value = ''10.1.2.3''\<rparr>)) = Inr True"
    by code_simp
  from ip_prefix_short_circuit [OF h1 h2, of "[''other.com'']" "[]"] h1 h2
  show ?thesis
    by simp
qed

text \<open>
  C4: where the prefix set is not empty and no prefix contains the parsed value,
  \<open>isValidResult\<close> returns false if the allow list is empty, and otherwise the result of the
  name checks: true exactly when the name ends with an allow-list entry and with no
  deny-list entry.
\<close>

theorem ip_prefix_fallthrough:
  "ips \<noteq> [] \<Longrightarrow> \<forall>n \<in> set ips. Contains n (ParseIP (Value e)) \<noteq> Inr True \<Longrightarrow>
   (allowed = [] \<longrightarrow> isValidResult e allowed blacklist ips = Inr False) \<and>
   (allowed \<noteq> [] \<longrightarrow>
      isValidResult e allowed blacklist ips =
        Inr (isAllowed allowed (Name e) \<and> \<not> isAllowed blacklist (Name e)))"
  by (auto simp: isValidResult_eq isValidResult_domains_eq)

theorem ip_prefix_fallthrough_witness:
  "[\<lparr>IP = [10, 0, 0, 0], Mask = [255, 0, 0, 0]\<rparr>] \<noteq> [] \<and>
   Contains \<lparr>IP = [10, 0, 0, 0], Mask = [255, 0, 0, 0]\<rparr> (ParseIP ''8.8.8.8'') = Inr False \<and>
   isValidResult \<lparr>Name = ''sub.other.com'', Value = ''8.8.8.8''\<rparr> [''other.com''] []
     [\<lparr>IP = [10, 0, 0, 0], Mask = [255, 0, 0, 0]\<rparr>] = Inr True \<and>
   isValidResult \<lparr>Name = ''sub.other.com'', Value = ''8.8.8.8''\<rparr> [] []
     [\<lparr>IP = [10, 0, 0, 0], Mask = [255, 0, 0, 0]\<rparr>] = Inr False"
proof -
  have h1: "[\<lparr>IP = [10, 0, 0, 0], Mask = [255, 0, 0, 0]\<rparr>] \<noteq> []"
    by simp
  have c: "Contains \<lparr>IP = [10, 0, 0, 0], Mask = [255, 0, 0, 0]\<rparr> (ParseIP ''8.8.8.8'') = Inr False"
    by code_simp
  have h2: "\<forall>n \<in> set [\<lparr>IP = [10, 0, 0, 0], Mask = [255, 0, 0, 0]\<rparr>].
      Contains n (ParseIP (Value \<lparr>Name = ''sub.other.com'', Value = ''8.8.8.8''\<rparr>)) \<noteq> Inr True"
    by (simp add: c)
  have a: "isAllowed [''other.com''] ''sub.other.com''"
    by code_simp
  from ip_prefix_fallthrough [OF h1 h2, of "[''other.com'']" "[]"]
       ip_prefix_fallthrough [OF h1 h2, of "[]" "[]"] c a
  show ?thesis
    by simp
qed

section \<open>The empty configuration (C5)\<close>

text \<open>
  C5 claims that with an empty allow list and an empty prefix set the process ends with a
  fatal configuration error before any worker starts. In the source the test is the first
  statement of \<^verbatim>\<open>parseFDNS\<close>, which the bulk worker calls after it has been started and
  has logged its start; \<^verbatim>\<open>main\<close> itself ends the process only for a missing
  \<^verbatim>\<open>-file\<close> or an unreadable list file. Run without \<^verbatim>\<open>-domains\<close> and
  \<^verbatim>\<open>-bdomains\<close>, \<^verbatim>\<open>main\<close> starts both workers, and the fatal line follows the start line
  of the bulk worker.
\<close>

theorem empty_config_workers_started_counterexample:
  "main (\<lambda>p. Inr ([], [])) (\<lambda>f. [\<lparr>Name = ''a.example.com'', Value = ''1.2.3.4''\<rparr>])
     (\<lambda>url. ReadError) (\<lambda>body bodyDomain. bodyDomain)
     \<lparr>parseFile = ''fdns.json'', parseDomainFilter = [], parseDomainBlacklist = [],
      useCATrans = False\<rparr>
     init_proc =
   Workers
     (Some (Exit 1),
      \<lparr>count = 1, valid = 0, stdout = [],
       stderr = [Log ''Parsing FDNS file.'' [],
                 Log ''No valid domains (0) and IPs (0) parsed.'' []]\<rparr>)
     (Some (None,
      \<lparr>count = 1, valid = 0, stdout = [],
       stderr = [Log ''Querying certificate transparency logs.'' []]\<rparr>))"
  by code_simp

text \<open>
  C5 as amended: with an empty allow list and an empty prefix set, the bulk worker, once
  started, ends the process with the fatal configuration error (exit status 1) before it
  reads or evaluates any record: whatever the record source holds, nothing is printed, the
  two counters keep their values and the only new log lines are the start line of the
  worker and the fatal line. The certificate-transparency driver has no domain to query:
  it returns at once and prints nothing. Where the lists that \<^verbatim>\<open>main\<close> has loaded are
  an empty allow list and an empty prefix set, this is the outcome of \<^verbatim>\<open>main\<close>.
\<close>

theorem empty_config_fatal_in_bulk_worker:
  "parseFDNS parseDnsHosts fname [] blacklist [] w =
     (Some (Exit 1), logf ''No valid domains (0) and IPs (0) parsed.'' [] w) \<and>
   fdns_worker parseDnsHosts fname [] blacklist [] w =
     (Some (Exit 1),
      logf ''No valid domains (0) and IPs (0) parsed.'' [] (logf ''Parsing FDNS file.'' [] w)) \<and>
   stdout (snd (fdns_worker parseDnsHosts fname [] blacklist [] w)) = stdout w \<and>
   count (snd (fdns_worker parseDnsHosts fname [] blacklist [] w)) = count w \<and>
   valid (snd (fdns_worker parseDnsHosts fname [] blacklist [] w)) = valid w \<and>
   queryCATransparency httpGet unmarshal [] blacklist w = (None, w) \<and>
   (main_lists parseDomainFile f w = (None, w1, [], blacklist, []) \<longrightarrow>
      main parseDomainFile parseDnsHosts httpGet unmarshal f w =
        Workers
          (Some (Exit 1),
           logf ''No valid domains (0) and IPs (0) parsed.'' [] (logf ''Parsing FDNS file.'' [] w1))
          (if \<not> useCATrans f
           then Some (None, logf ''Querying certificate transparency logs.'' [] w1)
           else None))"
  by (simp add: parseFDNS_def fdns_worker_def logf_def queryCATransparency_def main_def
      ct_worker_def)

theorem empty_config_fatal_in_bulk_worker_witness:
  "main_lists (\<lambda>p. Inr ([], []))
     \<lparr>parseFile = ''fdns.json'', parseDomainFilter = [], parseDomainBlacklist = [],
      useCATrans = True\<rparr> init_proc = (None, init_proc, [], [], []) \<and>
   main (\<lambda>p. Inr ([], [])) (\<lambda>f. [\<lparr>Name = ''a.example.com'', Value = ''1.2.3.4''\<rparr>])
     (\<lambda>url. ReadError) (\<lambda>body bodyDomain. bodyDomain)
     \<lparr>parseFile = ''fdns.json'', parseDomainFilter = [], parseDomainBlacklist = [],
      useCATrans = True\<rparr>
     init_proc =
   Workers
     (Some (Exit 1),
      logf ''No valid domains (0) and IPs (0) parsed.'' [] (logf ''Parsing FDNS file.'' [] init_proc))
     None"
proof -
  have h: "main_lists (\<lambda>p. Inr ([], []))
     \<lparr>parseFile = ''fdns.json'', parseDomainFilter = [], parseDomainBlacklist = [],
      useCATrans = True\<rparr> init_proc = (None, init_proc, [], [], [])"
    by (simp add: main_lists_def load_allowed_def load_blacklist_def)
  from empty_config_fatal_in_bulk_worker
         [of "\<lambda>f. [\<lparr>Name = ''a.example.com'', Value = ''1.2.3.4''\<rparr>]" "''fdns.json''" "[]"
             init_proc "\<lambda>url. ReadError" "\<lambda>body bodyDomain. bodyDomain" "\<lambda>p. Inr ([], [])"
             "\<lparr>parseFile = ''fdns.json'', parseDomainFilter = [], parseDomainBlacklist = [],
               useCATrans = True\<rparr>" init_proc] h
  show ?thesis
    by simp
qed

section \<open>The counters of the bulk scan (C6)\<close>

text \<open>
  What the scan does to the counters, as long as neither wraps: \<open>count\<close> grows by the
  number of records and \<open>valid\<close> by the number of records that the predicate accepts. The
  process starts with \<open>count = 1\<close>, so after the scan \<open>count\<close> is the number of records
  plus one.
\<close>

lemma parseFDNS_counters_from_start:
  assumes conf: "allowed \<noteq> [] \<or> ips \<noteq> []"
    and len: "int (length (parseDnsHosts fname)) < 2 ^ 63 - 1"
  shows "count (snd (parseFDNS parseDnsHosts fname allowed blacklist ips init_proc)) =
           int (length (parseDnsHosts fname)) + 1"
    and "valid (snd (parseFDNS parseDnsHosts fname allowed blacklist ips init_proc)) =
           int (length (filter (\<lambda>e. isValidResult e allowed blacklist ips = Inr True)
                          (parseDnsHosts fname)))"
proof -
  have run: "parseFDNS parseDnsHosts fname allowed blacklist ips init_proc =
      parseFDNS_loop (parseDnsHosts fname) allowed blacklist ips init_proc"
    using conf by (auto simp: parseFDNS_def)
  have c0: "count init_proc = 1" and v0: "valid init_proc = 0"
    by (simp_all add: init_proc_def)
  show "count (snd (parseFDNS parseDnsHosts fname allowed blacklist ips init_proc)) =
           int (length (parseDnsHosts fname)) + 1"
    using parseFDNS_loop_count [of init_proc "parseDnsHosts fname" allowed blacklist ips] len
    by (simp add: run c0)
  have "length (filter (\<lambda>e. isValidResult e allowed blacklist ips = Inr True)
          (parseDnsHosts fname)) \<le> length (parseDnsHosts fname)"
    by (rule length_filter_le)
  with len have bound:
    "int (length (filter (\<lambda>e. isValidResult e allowed blacklist ips = Inr True)
            (parseDnsHosts fname))) < 2 ^ 63"
    by linarith
  show "valid (snd (parseFDNS parseDnsHosts fname allowed blacklist ips init_proc)) =
           int (length (filter (\<lambda>e. isValidResult e allowed blacklist ips = Inr True)
                          (parseDnsHosts fname)))"
    using parseFDNS_loop_valid [of init_proc allowed blacklist ips "parseDnsHosts fname"] bound
    by (simp add: run v0)
qed

text \<open>
  C6 at the input of the specification's scenario: two records, the allow list
  \<^verbatim>\<open>example.com\<close>, no deny list and no prefixes, from the initial state of the process.
  The scan prints \<^verbatim>\<open>a.example.com\<close> and leaves \<open>valid = 1\<close>, as claimed, and
  \<open>count = 3\<close> where the claim says 2.
\<close>

theorem two_record_scan_counters:
  "parseFDNS
     (\<lambda>f. [\<lparr>Name = ''a.example.com'', Value = ''1.2.3.4''\<rparr>,
           \<lparr>Name = ''a.other.com'', Value = ''9.9.9.9''\<rparr>])
     ''fdns.json'' [''example.com''] [] [] init_proc =
   (None, \<lparr>count = 3, valid = 1, stdout = [''a.example.com''], stderr = []\<rparr>)"
  by code_simp

section \<open>The lists that \<open>main\<close> loads (C7)\<close>

text \<open>
  Where both list files are given and read, the prefixes that \<^verbatim>\<open>main\<close> passes on are
  those of the deny file: the second call of \<^verbatim>\<open>parseDomainFile\<close> assigns to the same
  variable \<^verbatim>\<open>ips\<close> as the first, and the prefixes of the allow file are lost.
\<close>

lemma main_lists_both_files:
  assumes "parseFile f \<noteq> []" and "parseDomainFilter f \<noteq> []" and "parseDomainBlacklist f \<noteq> []"
    and "parseDomainFile (parseDomainFilter f) = Inr (allowedDomains, allow_ips)"
    and "parseDomainFile (parseDomainBlacklist f) = Inr (blacklistDomains, deny_ips)"
  shows "snd (snd (main_lists parseDomainFile f w)) = (allowedDomains, blacklistDomains, deny_ips)"
  using assms by (simp add: main_lists_def load_allowed_def load_blacklist_def)

text \<open>
  C7 at a concrete input: the allow file holds \<^verbatim>\<open>example.com\<close> and 10.0.0.0/8, the deny
  file holds \<^verbatim>\<open>internal.example.com\<close> and 192.168.0.0/16, and the certificate-transparency
  source is switched off. The record with the value 10.1.2.3, inside the prefix of the
  allow file, is not printed; the record with the value 192.168.1.5, inside the prefix of
  the deny file, is printed.
\<close>

theorem deny_file_prefixes_replace_allow_file_prefixes:
  "main
     (\<lambda>p. if p = ''allow.txt''
          then Inr ([''example.com''], [\<lparr>IP = [10, 0, 0, 0], Mask = [255, 0, 0, 0]\<rparr>])
          else Inr ([''internal.example.com''],
                    [\<lparr>IP = [192, 168, 0, 0], Mask = [255, 255, 0, 0]\<rparr>]))
     (\<lambda>f. [\<lparr>Name = ''db.unrelated.net'', Value = ''10.1.2.3''\<rparr>,
           \<lparr>Name = ''host.unrelated.net'', Value = ''192.168.1.5''\<rparr>])
     (\<lambda>url. ReadError) (\<lambda>body bodyDomain. bodyDomain)
     \<lparr>parseFile = ''fdns.json'', parseDomainFilter = ''allow.txt'',
      parseDomainBlacklist = ''deny.txt'', useCATrans = True\<rparr>
     init_proc =
   Workers
     (None,
      \<lparr>count = 3, valid = 1, stdout = [''host.unrelated.net''],
       stderr = [Log ''Limiting to %v 2nd-lvl domains.'' [ArgInt 1],
                 Log ''Limiting to %v blacklisted 2nd-lvl domains.'' [ArgInt 1],
                 Log ''Parsing FDNS file.'' []]\<rparr>)
     None"
  by code_simp

section \<open>Order and determinism of the bulk scan (C8)\<close>

text \<open>
  C8: for every record sequence and all filter lists, the scan loop returns without ending
  the process, and the names it has printed are the names of the records that satisfy
  \<open>isValidResult\<close>, in the order of the source. The printed names do not depend on the
  state in which the scan starts: two runs over the same input with the same lists print
  the same sequence. \<^verbatim>\<open>parseFDNS\<close> runs this loop over the records of its file
  whenever the allow list or the prefix set is not empty.
\<close>

theorem parseFDNS_emits_matches_in_source_order:
  "fst (parseFDNS_loop recs allowed blacklist ips w) = None \<and>
   stdout (snd (parseFDNS_loop recs allowed blacklist ips w)) =
     stdout w @ map Name (filter (\<lambda>e. isValidResult e allowed blacklist ips = Inr True) recs) \<and>
   drop (length (stdout w)) (stdout (snd (parseFDNS_loop recs allowed blacklist ips w))) =
     drop (length (stdout w')) (stdout (snd (parseFDNS_loop recs allowed blacklist ips w'))) \<and>
   (allowed \<noteq> [] \<or> ips \<noteq> [] \<longrightarrow>
      parseFDNS parseDnsHosts fname allowed blacklist ips w =
        parseFDNS_loop (parseDnsHosts fname) allowed blacklist ips w)"
  by (auto simp: parseFDNS_def parseFDNS_loop_fst parseFDNS_loop_stdout)

theorem parseFDNS_emits_matches_in_source_order_witness:
  "fst (parseFDNS
     (\<lambda>f. [\<lparr>Name = ''a.example.com'', Value = ''1.2.3.4''\<rparr>,
           \<lparr>Name = ''a.other.com'', Value = ''9.9.9.9''\<rparr>,
           \<lparr>Name = ''b.example.com'', Value = ''5.6.7.8''\<rparr>])
     ''fdns.json'' [''example.com''] [] [] init_proc) = None \<and>
   stdout (snd (parseFDNS
     (\<lambda>f. [\<lparr>Name = ''a.example.com'', Value = ''1.2.3.4''\<rparr>,
           \<lparr>Name = ''a.other.com'', Value = ''9.9.9.9''\<rparr>,
           \<lparr>Name = ''b.example.com'', Value = ''5.6.7.8''\<rparr>])
     ''fdns.json'' [''example.com''] [] [] init_proc)) = [''a.example.com'', ''b.example.com'']"
proof -
  have h: "[''example.com''] \<noteq> [] \<or> ([] :: IPNet list) \<noteq> []"
    by simp
  have m: "map Name (filter (\<lambda>e. isValidResult e [''example.com''] [] [] = Inr True)
        [\<lparr>Name = ''a.example.com'', Value = ''1.2.3.4''\<rparr>,
         \<lparr>Name = ''a.other.com'', Value = ''9.9.9.9''\<rparr>,
         \<lparr>Name = ''b.example.com'', Value = ''5.6.7.8''\<rparr>]) =
      [''a.example.com'', ''b.example.com'']"
    by code_simp
  have s: "stdout init_proc = []"
    by (simp add: init_proc_def)
  from parseFDNS_emits_matches_in_source_order
         [of "[\<lparr>Name = ''a.example.com'', Value = ''1.2.3.4''\<rparr>,
               \<lparr>Name = ''a.other.com'', Value = ''9.9.9.9''\<rparr>,
               \<lparr>Name = ''b.example.com'', Value = ''5.6.7.8''\<rparr>]"
             "[''example.com'']" "[]" "[]" init_proc init_proc
             "\<lambda>f. [\<lparr>Name = ''a.example.com'', Value = ''1.2.3.4''\<rparr>,
                   \<lparr>Name = ''a.other.com'', Value = ''9.9.9.9''\<rparr>,
                   \<lparr>Name = ''b.example.com'', Value = ''5.6.7.8''\<rparr>]"
             "''fdns.json''"] h m s
  show ?thesis
    by simp
qed

section \<open>Values that are not addresses (C9)\<close>

text \<open>
  C9: where the value of the entry does not parse as an address (the parsed address is
  nil) and every configured prefix has the shape that \<^verbatim>\<open>net.ParseCIDR\<close> returns, no
  prefix contains the parsed address, the loop over the prefixes runs to its end without a
  panic, and the predicate returns a truth value: false where the prefix set is not empty
  and the allow list is empty, and the result of the name checks otherwise. The empty
  value of a certificate-transparency entry is such a value.
\<close>

theorem unparseable_value_not_admitted_by_prefix:
  assumes "ParseIP (Value e) = []" and "\<forall>n \<in> set ips. cidr_shaped n"
  shows "(\<forall>n \<in> set ips. Contains n (ParseIP (Value e)) = Inr False) \<and>
     isValidResult_ips ips (ParseIP (Value e)) = Inr False \<and>
     isValidResult e allowed blacklist ips =
       (if ips \<noteq> [] \<and> allowed = [] then Inr False
        else Inr (isValidResult_domains e allowed blacklist)) \<and>
     ParseIP [] = []"
proof -
  have none: "\<forall>n \<in> set ips. Contains n (ParseIP (Value e)) = Inr False"
    using assms by (simp add: Contains_nil)
  then have loop: "isValidResult_ips ips (ParseIP (Value e)) = Inr False"
    by (simp add: isValidResult_ips_eq)
  have pred: "isValidResult e allowed blacklist ips =
       (if ips \<noteq> [] \<and> allowed = [] then Inr False
        else Inr (isValidResult_domains e allowed blacklist))"
    using none by (auto simp: isValidResult_eq)
  have empty: "ParseIP [] = []"
    by (simp add: ParseIP_def)
  from none loop pred empty show ?thesis
    by blast
qed

theorem unparseable_value_not_admitted_by_prefix_witness:
  "ParseIP '''' = [] \<and> ParseIP ''alias.example.net'' = [] \<and>
   cidr_shaped \<lparr>IP = [10, 0, 0, 0], Mask = [255, 0, 0, 0]\<rparr> \<and>
   Contains \<lparr>IP = [10, 0, 0, 0], Mask = [255, 0, 0, 0]\<rparr> (ParseIP '''') = Inr False \<and>
   isValidResult \<lparr>Name = ''www.example.com'', Value = ''''\<rparr> [''example.com''] []
     [\<lparr>IP = [10, 0, 0, 0], Mask = [255, 0, 0, 0]\<rparr>] = Inr True \<and>
   isValidResult \<lparr>Name = ''www.example.com'', Value = ''''\<rparr> [] []
     [\<lparr>IP = [10, 0, 0, 0], Mask = [255, 0, 0, 0]\<rparr>] = Inr False"
proof -
  have h1: "ParseIP (Value \<lparr>Name = ''www.example.com'', Value = ''''\<rparr>) = []"
    by code_simp
  have a: "ParseIP ''alias.example.net'' = []"
    by code_simp
  have c: "cidr_shaped \<lparr>IP = [10, 0, 0, 0], Mask = [255, 0, 0, 0]\<rparr>"
    by code_simp
  then have h2: "\<forall>n \<in> set [\<lparr>IP = [10, 0, 0, 0], Mask = [255, 0, 0, 0]\<rparr>]. cidr_shaped n"
    by simp
  have d: "isValidResult_domains \<lparr>Name = ''www.example.com'', Value = ''''\<rparr> [''example.com''] []"
    by code_simp
  from unparseable_value_not_admitted_by_prefix [OF h1 h2, of "[''example.com'']" "[]"]
       unparseable_value_not_admitted_by_prefix [OF h1 h2, of "[]" "[]"] a c d
  show ?thesis
    by simp
qed

section \<open>The certificate-transparency driver matches by name (C10)\<close>

text \<open>
  C10: the driver calls the predicate with an entry that has a name and an empty value,
  and with an empty prefix set; the prefixes of the configuration are not among its
  arguments. It never ends the process, and the names it prints are, for each response it
  could read and in the order of the response, the decoded names that end with an
  allow-list entry and with no deny-list entry. For a non-empty allow list, as in every
  call the driver makes, the predicate on such an entry is exactly this test of the name.
\<close>

theorem queryCATransparency_matches_by_name:
  "fst (queryCATransparency httpGet unmarshal allowed blacklist w) = None \<and>
   stdout (snd (queryCATransparency httpGet unmarshal allowed blacklist w)) =
     stdout w @ concat (map (filter (\<lambda>d. isAllowed allowed d \<and> \<not> isAllowed blacklist d))
                          (ct_bodies httpGet unmarshal allowed [])) \<and>
   (allowed \<noteq> [] \<longrightarrow>
      isValidResult \<lparr>Name = d, Value = []\<rparr> allowed blacklist [] =
        Inr (isAllowed allowed d \<and> \<not> isAllowed blacklist d))"
proof (cases "allowed = []")
  case True
  then show ?thesis
    by (simp add: queryCATransparency_def)
next
  case False
  then show ?thesis
    using queryCATransparency_loop_eq [OF False, of httpGet unmarshal allowed blacklist "[]" w]
    by (simp add: queryCATransparency_def isValidResult_name_only)
qed

theorem queryCATransparency_matches_by_name_witness:
  "fst (queryCATransparency (\<lambda>url. Body ''[]'')
     (\<lambda>body bodyDomain. [''www.example.com'', ''internal.example.com'', ''mail.other.org''])
     [''example.com''] [''internal.example.com''] init_proc) = None \<and>
   stdout (snd (queryCATransparency (\<lambda>url. Body ''[]'')
     (\<lambda>body bodyDomain. [''www.example.com'', ''internal.example.com'', ''mail.other.org''])
     [''example.com''] [''internal.example.com''] init_proc)) = [''www.example.com''] \<and>
   isValidResult \<lparr>Name = ''internal.example.com'', Value = []\<rparr>
     [''example.com''] [''internal.example.com''] [] = Inr False"
proof -
  have h: "[''example.com''] \<noteq> []"
    by simp
  have b: "concat (map (filter (\<lambda>d. isAllowed [''example.com''] d \<and>
                                    \<not> isAllowed [''internal.example.com''] d))
             (ct_bodies (\<lambda>url. Body ''[]'')
                (\<lambda>body bodyDomain. [''www.example.com'', ''internal.example.com'', ''mail.other.org''])
                [''example.com''] [])) = [''www.example.com'']"
    by code_simp
  have m: "(isAllowed [''example.com''] ''internal.example.com'' \<and>
            \<not> isAllowed [''internal.example.com''] ''internal.example.com'') = False"
    by code_simp
  have s: "stdout init_proc = []"
    by (simp add: init_proc_def)
  from queryCATransparency_matches_by_name
         [of "\<lambda>url. Body ''[]''"
             "\<lambda>body bodyDomain. [''www.example.com'', ''internal.example.com'', ''mail.other.org'']"
             "[''example.com'']" "[''internal.example.com'']" init_proc "''internal.example.com''"]
       h b m s
  show ?thesis
    by simp
qed

end
